theory Spec2Isabelle
  imports Main "HOL-Library.Sublist"
begin

section \<open>Python strings\<close>

text \<open>
  A Python \<^verbatim>\<open>str\<close> is a sequence of Unicode code points, so it is modelled as a list of
  natural numbers (\<open>0 .. 0x10FFFF\<close>), not as a list of bytes. The string literals of
  \<^verbatim>\<open>fass_lookup.py\<close> that are pure ASCII are written with \<open>ascii\<close>; the two
  non-ASCII ones (the link emoji and the Swedish letter in the sources line) are written
  with their code points.
\<close>

type_synonym pystr = "nat list"

definition ascii :: "string \<Rightarrow> pystr" where
  "ascii s = map of_char s"

text \<open>
  \<^verbatim>\<open>str.lower()\<close>. On the ASCII range it maps \<open>A .. Z\<close> to \<open>a .. z\<close> and nothing
  else. Beyond ASCII CPython consults the Unicode character database, which is not part of
  the repository: a code point may map to one, two or three code points, and the capital
  sigma is lowered according to its neighbours. That table is the parameter \<open>U\<close>:
  \<open>U pre c suf\<close> is the lowering of the non-ASCII code point \<open>c\<close> standing between
  \<open>pre\<close> and \<open>suf\<close>. Every theorem below holds for every \<open>U\<close>.
\<close>

type_synonym utable = "pystr \<Rightarrow> nat \<Rightarrow> pystr \<Rightarrow> pystr"

definition ascii_lower :: "nat \<Rightarrow> nat" where
  "ascii_lower c = (if 65 \<le> c \<and> c \<le> 90 then c + 32 else c)"

definition ascii_upper :: "nat \<Rightarrow> nat" where
  "ascii_upper c = (if 97 \<le> c \<and> c \<le> 122 then c - 32 else c)"

fun lower_from :: "utable \<Rightarrow> pystr \<Rightarrow> pystr \<Rightarrow> pystr" where
  "lower_from U pre [] = []"
| "lower_from U pre (c # cs) =
     (if c < 128 then [ascii_lower c] else U pre c cs) @ lower_from U (pre @ [c]) cs"

definition py_lower :: "utable \<Rightarrow> pystr \<Rightarrow> pystr" where
  "py_lower U s = lower_from U [] s"

text \<open>
  \<^verbatim>\<open>str.strip()\<close> without argument removes leading and trailing white space, where
  white space is what \<^verbatim>\<open>str.isspace\<close> accepts: the ASCII controls
  \<open>0x09 .. 0x0D\<close> and \<open>0x1C .. 0x1F\<close>, the space, and the Unicode code points of
  bidirectional class WS, B or S or of category Zs.
\<close>

definition py_isspace :: "nat \<Rightarrow> bool" where
  "py_isspace c \<longleftrightarrow>
     (9 \<le> c \<and> c \<le> 13) \<or> (28 \<le> c \<and> c \<le> 32) \<or> c = 133 \<or> c = 160 \<or> c = 5760 \<or>
     (8192 \<le> c \<and> c \<le> 8202) \<or> c = 8232 \<or> c = 8233 \<or> c = 8239 \<or> c = 8287 \<or> c = 12288"

definition py_strip :: "pystr \<Rightarrow> pystr" where
  "py_strip s = rev (dropWhile py_isspace (rev (dropWhile py_isspace s)))"

text \<open>The substring test \<^verbatim>\<open>a in b\<close> on two strings.\<close>

fun py_in :: "pystr \<Rightarrow> pystr \<Rightarrow> bool" where
  "py_in a [] = (a = [])"
| "py_in a (c # cs) = (prefix a (c # cs) \<or> py_in a cs)"

text \<open>\<^verbatim>\<open>sep.join(xs)\<close>.\<close>

fun py_join :: "pystr \<Rightarrow> pystr list \<Rightarrow> pystr" where
  "py_join sep [] = []"
| "py_join sep [x] = x"
| "py_join sep (x # y # ys) = x @ sep @ py_join sep (y # ys)"

text \<open>
  \<^verbatim>\<open>str.title()\<close>: a cased character is upper-cased when the character before it is
  not cased and lower-cased otherwise. The script applies it to the keys of the directory
  only, which are ASCII, so the model gives the ASCII behaviour and leaves other code
  points as they are.
\<close>

definition ascii_cased :: "nat \<Rightarrow> bool" where
  "ascii_cased c \<longleftrightarrow> (65 \<le> c \<and> c \<le> 90) \<or> (97 \<le> c \<and> c \<le> 122)"

fun title_from :: "bool \<Rightarrow> pystr \<Rightarrow> pystr" where
  "title_from prev [] = []"
| "title_from prev (c # cs) =
     (if prev then ascii_lower c else ascii_upper c) # title_from (ascii_cased c) cs"

definition py_title :: "pystr \<Rightarrow> pystr" where
  "py_title s = title_from False s"

section \<open>The medication directory\<close>

text \<open>
  The value under \<^verbatim>\<open>'otc'\<close> is \<^verbatim>\<open>True\<close>, \<^verbatim>\<open>False\<close> or a string.
\<close>

datatype otc_value = OtcBool bool | OtcStr pystr

record med_info =
  brands :: "pystr list"
  use :: pystr
  dose :: pystr
  otc :: otc_value
  warnings :: pystr

text \<open>
  \<^verbatim>\<open>get_common_medications\<close> returns a dict literal; a Python dict iterates in
  insertion order, so the directory is the association list of the literal's entries in
  the order they are written.
\<close>

definition get_common_medications :: "(pystr \<times> med_info) list" where
  "get_common_medications =
   [(ascii ''paracetamol'',
      \<lparr>brands = [ascii ''Alvedon'', ascii ''Panodil'', ascii ''Pamol''],
       use = ascii ''Pain relief, fever reduction'',
       dose = ascii ''Adult: 500-1000mg every 4-6h, max 4g/day'',
       otc = OtcBool True,
       warnings = ascii ''Avoid with liver disease, limit alcohol''\<rparr>),
    (ascii ''ibuprofen'',
      \<lparr>brands = [ascii ''Ipren'', ascii ''Ibumetin'', ascii ''Brufen''],
       use = ascii ''Pain, inflammation, fever'',
       dose = ascii ''Adult: 200-400mg every 4-6h, max 1200mg/day (OTC)'',
       otc = OtcBool True,
       warnings = ascii ''Take with food, avoid if stomach ulcers or kidney issues''\<rparr>),
    (ascii ''omeprazol'',
      \<lparr>brands = [ascii ''Losec'', ascii ''Omeprazol''],
       use = ascii ''Acid reflux, stomach ulcers, GERD'',
       dose = ascii ''Adult: 20mg once daily'',
       otc = OtcStr (ascii ''Low dose OTC, higher doses Rx''),
       warnings = ascii ''Long-term use may affect B12/magnesium''\<rparr>),
    (ascii ''sertralin'',
      \<lparr>brands = [ascii ''Zoloft'', ascii ''Sertralin''],
       use = ascii ''Depression, anxiety, OCD, PTSD'',
       dose = ascii ''Adult: Start 50mg/day, may increase'',
       otc = OtcBool False,
       warnings = ascii ''Takes 2-4 weeks for effect, do not stop abruptly''\<rparr>),
    (ascii ''metformin'',
      \<lparr>brands = [ascii ''Metformin'', ascii ''Glucophage''],
       use = ascii ''Type 2 diabetes'',
       dose = ascii ''Adult: Start 500mg 1-2x/day with food'',
       otc = OtcBool False,
       warnings = ascii ''Monitor kidney function, stop before contrast imaging''\<rparr>),
    (ascii ''atorvastatin'',
      \<lparr>brands = [ascii ''Lipitor'', ascii ''Atorvastatin''],
       use = ascii ''High cholesterol, cardiovascular prevention'',
       dose = ascii ''Adult: 10-80mg once daily'',
       otc = OtcBool False,
       warnings = ascii ''Report muscle pain, avoid grapefruit''\<rparr>),
    (ascii ''loratadin'',
      \<lparr>brands = [ascii ''Clarityn'', ascii ''Loratadin''],
       use = ascii ''Allergies, hay fever, hives'',
       dose = ascii ''Adult: 10mg once daily'',
       otc = OtcBool True,
       warnings = ascii ''Non-drowsy antihistamine''\<rparr>),
    (ascii ''cetirizin'',
      \<lparr>brands = [ascii ''Zyrtec'', ascii ''Cetirizin''],
       use = ascii ''Allergies, hay fever, hives'',
       dose = ascii ''Adult: 10mg once daily'',
       otc = OtcBool True,
       warnings = ascii ''May cause slight drowsiness''\<rparr>)]"

section \<open>The matcher\<close>

text \<open>
  The \<^verbatim>\<open>for\<close> loop of \<^verbatim>\<open>lookup_medication\<close> over
  \<^verbatim>\<open>common_meds.items()\<close>, with its two \<^verbatim>\<open>if ... break\<close> statements in the
  order of the source. \<open>None\<close> is the initial \<^verbatim>\<open>found = None\<close> that no iteration
  has overwritten.
\<close>

fun find_med :: "utable \<Rightarrow> pystr \<Rightarrow> (pystr \<times> med_info) list \<Rightarrow> (pystr \<times> med_info) option" where
  "find_med U query_lower [] = None"
| "find_med U query_lower ((med_name, info) # rest) =
     (if query_lower = med_name \<or> query_lower \<in> set (map (py_lower U) (brands info))
      then Some (med_name, info)
      else if py_in query_lower med_name
      then Some (med_name, info)
      else find_med U query_lower rest)"

definition query_lower_of :: "utable \<Rightarrow> pystr \<Rightarrow> pystr" where
  "query_lower_of U query = py_strip (py_lower U query)"

definition match_med :: "utable \<Rightarrow> pystr \<Rightarrow> (pystr \<times> med_info) option" where
  "match_med U query = find_med U (query_lower_of U query) get_common_medications"

section \<open>The reference link\<close>

text \<open>
  \<^verbatim>\<open>urllib.parse.quote(query)\<close> with its defaults (\<^verbatim>\<open>safe='/'\<close>, UTF-8,
  \<^verbatim>\<open>errors='strict'\<close>): the string is encoded to UTF-8, and every byte that is not an
  unreserved character (letters, digits, \<^verbatim>\<open>_.-~\<close>) or the slash becomes \<^verbatim>\<open>%XX\<close>
  with upper-case hexadecimal digits. The strict encoder raises
  \<^verbatim>\<open>UnicodeEncodeError\<close> on a surrogate code point (\<open>0xD800 .. 0xDFFF\<close>); such code
  points occur in \<^verbatim>\<open>sys.argv\<close> when an argument holds bytes that are not valid UTF-8
  (\<^verbatim>\<open>surrogateescape\<close>). A number above \<open>0x10FFFF\<close> is no code point of a Python
  string; the model answers with the same error there. The tilde is unreserved since
  Python 3.7; before, it was escaped like any other byte. The empty string is returned as
  it is, which is what the general case gives as well.
\<close>

datatype py_error = UnicodeEncodeError

definition utf8_encode_cp :: "nat \<Rightarrow> py_error + nat list" where
  "utf8_encode_cp c =
     (if c < 128 then Inr [c]
      else if c < 2048 then Inr [192 + c div 64, 128 + c mod 64]
      else if 55296 \<le> c \<and> c \<le> 57343 then Inl UnicodeEncodeError
      else if c < 65536 then Inr [224 + c div 4096, 128 + c div 64 mod 64, 128 + c mod 64]
      else if c < 1114112 then
        Inr [240 + c div 262144, 128 + c div 4096 mod 64, 128 + c div 64 mod 64, 128 + c mod 64]
      else Inl UnicodeEncodeError)"

fun utf8_encode :: "pystr \<Rightarrow> py_error + nat list" where
  "utf8_encode [] = Inr []"
| "utf8_encode (c # cs) =
     (case utf8_encode_cp c of
        Inl e \<Rightarrow> Inl e
      | Inr bs \<Rightarrow> (case utf8_encode cs of Inl e \<Rightarrow> Inl e | Inr rest \<Rightarrow> Inr (bs @ rest)))"

definition always_safe :: "nat \<Rightarrow> bool" where
  "always_safe b \<longleftrightarrow>
     (65 \<le> b \<and> b \<le> 90) \<or> (97 \<le> b \<and> b \<le> 122) \<or> (48 \<le> b \<and> b \<le> 57) \<or>
     b = 95 \<or> b = 46 \<or> b = 45 \<or> b = 126"

definition hex_digit :: "nat \<Rightarrow> nat" where
  "hex_digit n = (if n < 10 then 48 + n else 55 + n)"

definition quoter :: "nat \<Rightarrow> pystr" where
  "quoter b =
     (if always_safe b \<or> b = 47 then [b] else [37, hex_digit (b div 16), hex_digit (b mod 16)])"

definition quote_from_bytes :: "nat list \<Rightarrow> pystr" where
  "quote_from_bytes bs = concat (map quoter bs)"

definition quote :: "pystr \<Rightarrow> py_error + pystr" where
  "quote s = (case utf8_encode s of Inl e \<Rightarrow> Inl e | Inr bs \<Rightarrow> Inr (quote_from_bytes bs))"

text \<open>The dict that \<^verbatim>\<open>search_fass_web\<close> returns (its key \<^verbatim>\<open>note\<close> is the field \<open>note_text\<close>).\<close>

record web_info =
  query :: pystr
  search_url :: pystr
  note_text :: pystr

definition search_fass_web :: "pystr \<Rightarrow> py_error + web_info" where
  "search_fass_web q =
     (case quote q of
        Inl e \<Rightarrow> Inl e
      | Inr encoded_query \<Rightarrow>
          Inr \<lparr>query = q,
               search_url = ascii ''https://fass.se/search?query='' @ encoded_query,
               note_text = ascii ''Visit the URL above to see full results on FASS.se''\<rparr>)"

section \<open>The formatter\<close>

text \<open>
  How an f-string renders the value under \<^verbatim>\<open>'otc'\<close>: a string as itself, a
  Boolean as \<^verbatim>\<open>True\<close> or \<^verbatim>\<open>False\<close>.
\<close>

fun format_otc :: "otc_value \<Rightarrow> pystr" where
  "format_otc (OtcStr s) = s"
| "format_otc (OtcBool b) = (if b then ascii ''True'' else ascii ''False'')"

text \<open>
  The conditional expression inside the \<^verbatim>\<open>**OTC:**\<close> line:
  \<^verbatim>\<open>'Yes (receptfritt)' if info['otc'] == True else 'No (receptbelagt)' if info['otc'] == False else info['otc']\<close>.
  A string is equal to neither Boolean.
\<close>

definition otc_text :: "otc_value \<Rightarrow> pystr" where
  "otc_text v =
     (if v = OtcBool True then ascii ''Yes (receptfritt)''
      else if v = OtcBool False then ascii ''No (receptbelagt)''
      else format_otc v)"

text \<open>The lines appended under \<^verbatim>\<open>if found:\<close>.\<close>

definition found_lines :: "(pystr \<times> med_info) option \<Rightarrow> pystr list" where
  "found_lines found =
     (case found of
        None \<Rightarrow> []
      | Some (med_name, info) \<Rightarrow>
          [ascii ''### '' @ py_title med_name @ ascii '' ('' @
             py_join (ascii '', '') (brands info) @ ascii '')'' @ [10],
           ascii ''**Use:** '' @ use info,
           ascii ''**Dosage:** '' @ dose info,
           ascii ''**OTC:** '' @ otc_text (otc info),
           ascii ''**Warnings:** '' @ warnings info,
           []])"

text \<open>
  The lines appended after the call of \<^verbatim>\<open>search_fass_web\<close>. The second line starts
  with the link emoji \<open>U+1F517\<close>; the last one holds \<open>U+00E4\<close>.
\<close>

definition fass_lines :: "web_info \<Rightarrow> pystr list" where
  "fass_lines w =
     [ascii ''### Full Information on FASS'',
      [128279, 32] @ search_url w,
      [],
      ascii ''---'',
      ascii ''*This is informational only. Always consult healthcare professionals for medical advice.*'',
      ascii ''*Sources: FASS.se, L'' @ [228] @ ascii ''kemedelsverket*'']"

definition lookup_medication :: "utable \<Rightarrow> pystr \<Rightarrow> py_error + pystr" where
  "lookup_medication U q =
     (let query_lower = py_strip (py_lower U q);
          common_meds = get_common_medications;
          output = [ascii ''## Swedish Medication Lookup: '' @ q @ [10]];
          found = find_med U query_lower common_meds;
          output = output @ found_lines found
      in case search_fass_web q of
           Inl e \<Rightarrow> Inl e
         | Inr w \<Rightarrow> Inr (py_join [10] (output @ fass_lines w)))"

section \<open>The command line\<close>




section \<open>The matching rule in the words of the specification\<close>

text \<open>
  An entry satisfies the rule for a normalized query when its canonical name equals the
  query, or the lower-casing of one of its brand names equals the query, or its canonical
  name contains the query as a contiguous substring.
\<close>

definition entry_matches :: "utable \<Rightarrow> pystr \<Rightarrow> pystr \<times> med_info \<Rightarrow> bool" where
  "entry_matches U nq e \<longleftrightarrow>
     fst e = nq \<or> nq \<in> py_lower U ` set (brands (snd e)) \<or> sublist nq (fst e)"

text \<open>
  Two strings are equal up to letter casing when they have the same length and, position
  by position, hold ASCII characters that differ at most in the case of a letter.
\<close>

definition caseless_eq :: "pystr \<Rightarrow> pystr \<Rightarrow> bool" where
  "caseless_eq v w \<longleftrightarrow>
     list_all2 (\<lambda>a b. a < 128 \<and> b < 128 \<and> ascii_lower a = ascii_lower b) v w"

text \<open>
  A fact about the Unicode table that the lower-casing of padded queries needs: the
  white-space code points beyond ASCII have no lower-case mapping.
\<close>

definition uncased_space :: "utable \<Rightarrow> bool" where
  "uncased_space U \<longleftrightarrow> (\<forall>pre c suf. py_isspace c \<and> 128 \<le> c \<longrightarrow> U pre c suf = [c])"


section \<open>Percent-decoding, in the words of the specification\<close>

text \<open>
  The claim about the reference link speaks of percent-decoding the query component of
  the URL. Decoding is not part of the script; it is defined here as the standard inverse:
  every \<^verbatim>\<open>%XX\<close> with two hexadecimal digits becomes the byte \<open>XX\<close>, every other
  character stands for its own byte, and the bytes are read as strict UTF-8 (no overlong
  form, no surrogate, nothing above \<open>0x10FFFF\<close>).
\<close>

definition is_hex :: "nat \<Rightarrow> bool" where
  "is_hex c \<longleftrightarrow> (48 \<le> c \<and> c \<le> 57) \<or> (65 \<le> c \<and> c \<le> 70) \<or> (97 \<le> c \<and> c \<le> 102)"

definition hex_value :: "nat \<Rightarrow> nat" where
  "hex_value c = (if c \<le> 57 then c - 48 else if c \<le> 70 then c - 55 else c - 87)"

fun percent_decode :: "pystr \<Rightarrow> nat list" where
  "percent_decode (c # h1 # h2 # rest) =
     (if c = 37 \<and> is_hex h1 \<and> is_hex h2
      then (16 * hex_value h1 + hex_value h2) # percent_decode rest
      else c # percent_decode (h1 # h2 # rest))"
| "percent_decode (c # cs) = c # percent_decode cs"
| "percent_decode [] = []"

definition continuation :: "nat \<Rightarrow> bool" where
  "continuation b \<longleftrightarrow> 128 \<le> b \<and> b < 192"

fun utf8_decode :: "nat list \<Rightarrow> pystr option" where
  "utf8_decode [] = Some []"
| "utf8_decode (b # bs) =
     (if b < 128 then map_option ((#) b) (utf8_decode bs)
      else if 192 \<le> b \<and> b < 224 then
        (case bs of
           b1 # rest \<Rightarrow>
             (let c = (b - 192) * 64 + (b1 - 128)
              in if continuation b1 \<and> 128 \<le> c
                 then map_option ((#) c) (utf8_decode rest) else None)
         | _ \<Rightarrow> None)
      else if 224 \<le> b \<and> b < 240 then
        (case bs of
           b1 # b2 # rest \<Rightarrow>
             (let c = ((b - 224) * 64 + (b1 - 128)) * 64 + (b2 - 128)
              in if continuation b1 \<and> continuation b2 \<and> 2048 \<le> c \<and>
                    \<not> (55296 \<le> c \<and> c \<le> 57343)
                 then map_option ((#) c) (utf8_decode rest) else None)
         | _ \<Rightarrow> None)
      else if 240 \<le> b \<and> b < 248 then
        (case bs of
           b1 # b2 # b3 # rest \<Rightarrow>
             (let c = (((b - 240) * 64 + (b1 - 128)) * 64 + (b2 - 128)) * 64 + (b3 - 128)
              in if continuation b1 \<and> continuation b2 \<and> continuation b3 \<and>
                    65536 \<le> c \<and> c < 1114112
                 then map_option ((#) c) (utf8_decode rest) else None)
         | _ \<Rightarrow> None)
      else None)"

text \<open>
  The strings that the strict UTF-8 encoder accepts: those of Unicode scalar values, that
  is of code points outside the surrogate range \<open>0xD800 .. 0xDFFF\<close>.
\<close>

definition scalar_value :: "nat \<Rightarrow> bool" where
  "scalar_value c \<longleftrightarrow> c < 55296 \<or> (57343 < c \<and> c < 1114112)"

definition encodable :: "pystr \<Rightarrow> bool" where
  "encodable s = list_all scalar_value s"

section \<open>Properties of the matcher\<close>

lemmas matcher_eval =
  match_med_def query_lower_of_def py_lower_def py_strip_def py_isspace_def ascii_def
  ascii_lower_def get_common_medications_def

lemma py_in_iff_sublist: "py_in a b \<longleftrightarrow> sublist a b"
  by (induction b) (simp_all add: sublist_Cons_right)

lemma find_med_find: "find_med U nq ds = find (entry_matches U nq) ds"
  by (induction ds) (auto simp: entry_matches_def py_in_iff_sublist)

text \<open>
  C1. For every query, the matcher returns the first entry of the directory, in the
  insertion order of its 8 built-in entries, that satisfies one of the three rules for the
  normalized query (exact name, exact lower-cased brand, substring of the name), and
  nothing when no entry does.
\<close>

theorem matcher_first_match:
  "match_med U q = find (entry_matches U (py_strip (py_lower U q))) get_common_medications \<and>
   map fst get_common_medications =
     [ascii ''paracetamol'', ascii ''ibuprofen'', ascii ''omeprazol'', ascii ''sertralin'',
      ascii ''metformin'', ascii ''atorvastatin'', ascii ''loratadin'', ascii ''cetirizin'']"
proof
  show "match_med U q = find (entry_matches U (py_strip (py_lower U q))) get_common_medications"
    by (simp only: match_med_def query_lower_of_def find_med_find)
  show "map fst get_common_medications =
     [ascii ''paracetamol'', ascii ''ibuprofen'', ascii ''omeprazol'', ascii ''sertralin'',
      ascii ''metformin'', ascii ''atorvastatin'', ascii ''loratadin'', ascii ''cetirizin'']"
    by (simp add: get_common_medications_def)
qed

text \<open>
  C2. Containment is tested against canonical names only: a query whose normalization is
  a substring of some brand name, but is neither a substring of a canonical name nor equal
  to a canonical name or a lower-cased brand name, finds nothing. The query
  \<^verbatim>\<open>aspirin\<close> finds nothing.
\<close>

theorem brand_substring_not_matched:
  "((\<exists>e \<in> set get_common_medications. \<exists>b \<in> set (brands (snd e)).
        sublist (py_strip (py_lower U q)) b) \<and>
    (\<forall>e \<in> set get_common_medications.
        \<not> sublist (py_strip (py_lower U q)) (fst e) \<and>
        py_strip (py_lower U q) \<noteq> fst e \<and>
        py_strip (py_lower U q) \<notin> py_lower U ` set (brands (snd e)))
    \<longrightarrow> match_med U q = None) \<and>
   match_med U (ascii ''aspirin'') = None"
proof
  show "(\<exists>e \<in> set get_common_medications. \<exists>b \<in> set (brands (snd e)).
        sublist (py_strip (py_lower U q)) b) \<and>
    (\<forall>e \<in> set get_common_medications.
        \<not> sublist (py_strip (py_lower U q)) (fst e) \<and>
        py_strip (py_lower U q) \<noteq> fst e \<and>
        py_strip (py_lower U q) \<notin> py_lower U ` set (brands (snd e)))
    \<longrightarrow> match_med U q = None"
    by (auto simp: match_med_def query_lower_of_def find_med_find find_None_iff entry_matches_def)
  show "match_med U (ascii ''aspirin'') = None"
    by (simp add: matcher_eval)
qed

theorem brand_substring_not_matched_witness:
  "(\<exists>e \<in> set get_common_medications. \<exists>b \<in> set (brands (snd e)).
        sublist (py_strip (py_lower (\<lambda>pre c suf. [c]) (ascii ''lvedo''))) b) \<and>
   list_all (\<lambda>e.
        \<not> sublist (py_strip (py_lower (\<lambda>pre c suf. [c]) (ascii ''lvedo''))) (fst e) \<and>
        py_strip (py_lower (\<lambda>pre c suf. [c]) (ascii ''lvedo'')) \<noteq> fst e \<and>
        py_strip (py_lower (\<lambda>pre c suf. [c]) (ascii ''lvedo'')) \<notin>
          py_lower (\<lambda>pre c suf. [c]) ` set (brands (snd e))) get_common_medications \<and>
   match_med (\<lambda>pre c suf. [c]) (ascii ''lvedo'') = None"
proof -
  have n: "py_strip (py_lower (\<lambda>pre c suf. [c]) (ascii ''lvedo'')) = ascii ''lvedo''"
    by (simp add: matcher_eval)
  have h1: "\<exists>e \<in> set get_common_medications. \<exists>b \<in> set (brands (snd e)).
        sublist (py_strip (py_lower (\<lambda>pre c suf. [c]) (ascii ''lvedo''))) b"
    unfolding n py_in_iff_sublist [symmetric]
    by (simp add: get_common_medications_def ascii_def)
  have h2: "list_all (\<lambda>e.
        \<not> sublist (py_strip (py_lower (\<lambda>pre c suf. [c]) (ascii ''lvedo''))) (fst e) \<and>
        py_strip (py_lower (\<lambda>pre c suf. [c]) (ascii ''lvedo'')) \<noteq> fst e \<and>
        py_strip (py_lower (\<lambda>pre c suf. [c]) (ascii ''lvedo'')) \<notin>
          py_lower (\<lambda>pre c suf. [c]) ` set (brands (snd e))) get_common_medications"
    unfolding n py_in_iff_sublist [symmetric]
    by (simp add: get_common_medications_def ascii_def py_lower_def ascii_lower_def)
  from brand_substring_not_matched [of "\<lambda>pre c suf. [c]" "ascii ''lvedo''"] h1
    h2 [unfolded list_all_iff]
  have "match_med (\<lambda>pre c suf. [c]) (ascii ''lvedo'') = None" by blast
  with h1 h2 show ?thesis by blast
qed

text \<open>
  C5. The query \<^verbatim>\<open>para\<close> finds the paracetamol record by the substring rule (it is
  neither the name nor a brand), and \<^verbatim>\<open>panodil\<close> finds it by the brand rule (it is
  no substring of the name).
\<close>

theorem para_and_panodil:
  "match_med U (ascii ''para'') = Some (hd get_common_medications) \<and>
   match_med U (ascii ''panodil'') = Some (hd get_common_medications) \<and>
   fst (hd get_common_medications) = ascii ''paracetamol'' \<and>
   py_strip (py_lower U (ascii ''para'')) = ascii ''para'' \<and>
   ascii ''para'' \<noteq> ascii ''paracetamol'' \<and>
   ascii ''para'' \<notin> set (map (py_lower U) (brands (snd (hd get_common_medications)))) \<and>
   py_in (ascii ''para'') (ascii ''paracetamol'') \<and>
   py_strip (py_lower U (ascii ''panodil'')) = ascii ''panodil'' \<and>
   ascii ''panodil'' \<in> set (map (py_lower U) (brands (snd (hd get_common_medications)))) \<and>
   \<not> py_in (ascii ''panodil'') (ascii ''paracetamol'')"
  by (simp add: matcher_eval)

text \<open>
  C10. A query that normalizes to the empty string never finds nothing: it finds the
  first entry of the directory, the paracetamol record, since the empty string is a
  substring of every name.
\<close>

theorem empty_query_matches_first:
  assumes "py_strip (py_lower U q) = []"
  shows "match_med U q = Some (hd get_common_medications) \<and>
         map_option fst (match_med U q) = Some (ascii ''paracetamol'')"
  using assms by (simp add: match_med_def query_lower_of_def get_common_medications_def ascii_def)

theorem empty_query_matches_first_witness:
  "py_strip (py_lower (\<lambda>pre c suf. [c]) (ascii ''   '')) = [] \<and>
   match_med (\<lambda>pre c suf. [c]) (ascii ''   '') = Some (hd get_common_medications) \<and>
   map_option fst (match_med (\<lambda>pre c suf. [c]) (ascii ''   '')) = Some (ascii ''paracetamol'')"
proof -
  have h: "py_strip (py_lower (\<lambda>pre c suf. [c]) (ascii ''   '')) = []"
    by (simp add: py_strip_def py_lower_def py_isspace_def ascii_def ascii_lower_def)
  show ?thesis using h empty_query_matches_first [OF h] by blast
qed

section \<open>Queries that differ from a name or a brand in letter case\<close>

lemma lower_from_plain:
  "(\<And>c. c \<in> set s \<Longrightarrow> c < 128 \<or> (\<forall>pre suf. U pre c suf = [c])) \<Longrightarrow>
   lower_from U pre s = map ascii_lower s"
proof (induction s arbitrary: pre)
  case Nil
  show ?case by simp
next
  case (Cons c cs)
  have tl: "lower_from U (pre @ [c]) cs = map ascii_lower cs"
    by (rule Cons.IH) (simp add: Cons.prems)
  have hd: "(if c < 128 then [ascii_lower c] else U pre c cs) = [ascii_lower c]"
    using Cons.prems [of c] by (auto simp: ascii_lower_def)
  show ?case by (simp only: lower_from.simps hd tl list.map append.simps)
qed

lemma caseless_eq_lower:
  "caseless_eq v w \<Longrightarrow> map ascii_lower v = map ascii_lower w \<and> (\<forall>c \<in> set v. c < 128)"
  unfolding caseless_eq_def by (induction v w rule: list_all2_induct) simp_all

lemma isspace_lower: "py_isspace c \<Longrightarrow> ascii_lower c = c"
  by (auto simp: py_isspace_def ascii_lower_def)

lemma strip_padded:
  assumes "\<forall>c \<in> set ws1. py_isspace c" and "\<forall>c \<in> set ws2. py_isspace c"
    and "n \<noteq> []" and "\<not> py_isspace (hd n)" and "\<not> py_isspace (last n)"
  shows "py_strip (ws1 @ n @ ws2) = n"
proof -
  have a: "dropWhile py_isspace (ws1 @ n @ ws2) = n @ ws2"
    using assms(1,3,4) by (simp add: dropWhile_append2 dropWhile_eq_self_iff)
  have "dropWhile py_isspace (rev ws2 @ rev n) = dropWhile py_isspace (rev n)"
    by (rule dropWhile_append2) (use assms(2) in simp)
  also have "\<dots> = rev n"
    unfolding dropWhile_eq_self_iff using assms(3,5) by (simp add: hd_rev)
  finally have b: "dropWhile py_isspace (rev ws2 @ rev n) = rev n" .
  show ?thesis by (simp add: py_strip_def a b)
qed

lemma names_table:
  "list_all (\<lambda>e. find_med U (fst e) get_common_medications = Some e \<and>
                 map ascii_lower (fst e) = fst e \<and> fst e \<noteq> [] \<and>
                 \<not> py_isspace (hd (fst e)) \<and> \<not> py_isspace (last (fst e)))
     get_common_medications"
  by (simp add: get_common_medications_def ascii_def py_lower_def ascii_lower_def py_isspace_def)

lemma brands_table:
  "list_all (\<lambda>e. list_all (\<lambda>b.
       find_med U (map ascii_lower b) get_common_medications = Some e \<and>
       py_strip (map ascii_lower b) = map ascii_lower b) (brands (snd e)))
     get_common_medications"
  by (simp add: get_common_medications_def ascii_def py_lower_def ascii_lower_def py_isspace_def
      py_strip_def)

text \<open>
  C3. For each of the 8 canonical names, every query that differs from the name only in
  the case of its letters and in surrounding white space finds exactly the record of that
  name: no earlier entry wins.
\<close>

theorem canonical_name_any_case:
  assumes "e \<in> set get_common_medications"
    and "caseless_eq v (fst e)"
    and "list_all py_isspace ws1" and "list_all py_isspace ws2"
    and "uncased_space U"
  shows "match_med U (ws1 @ v @ ws2) = Some e"
proof -
  have ws: "\<forall>c \<in> set ws1. py_isspace c" "\<forall>c \<in> set ws2. py_isspace c"
    using assms(3,4) by (simp_all add: list_all_iff)
  from names_table [of U] assms(1)
  have t: "find_med U (fst e) get_common_medications = Some e"
    "map ascii_lower (fst e) = fst e" "fst e \<noteq> []"
    "\<not> py_isspace (hd (fst e))" "\<not> py_isspace (last (fst e))"
    by (simp_all add: list_all_iff)
  from caseless_eq_lower [OF assms(2)]
  have v: "map ascii_lower v = fst e" "\<forall>c \<in> set v. c < 128"
    by (simp_all add: t(2))
  have "lower_from U [] (ws1 @ v @ ws2) = map ascii_lower (ws1 @ v @ ws2)"
  proof (rule lower_from_plain)
    fix c assume "c \<in> set (ws1 @ v @ ws2)"
    then consider "c \<in> set v" | "py_isspace c"
      using ws by auto
    then show "c < 128 \<or> (\<forall>pre suf. U pre c suf = [c])"
    proof cases
      case 1
      then show ?thesis using v(2) by simp
    next
      case 2
      then show ?thesis using assms(5) unfolding uncased_space_def
        by (cases "c < 128") auto
    qed
  qed
  also have "\<dots> = ws1 @ fst e @ ws2"
    using ws by (simp add: v(1) isspace_lower map_idI)
  finally have "py_lower U (ws1 @ v @ ws2) = ws1 @ fst e @ ws2"
    by (simp add: py_lower_def)
  then have "query_lower_of U (ws1 @ v @ ws2) = fst e"
    by (simp add: query_lower_of_def strip_padded [OF ws t(3,4,5)])
  then show ?thesis by (simp add: match_med_def t(1))
qed

theorem canonical_name_any_case_witness:
  "get_common_medications ! 7 \<in> set get_common_medications \<and>
   caseless_eq (ascii ''CeTiRiZin'') (fst (get_common_medications ! 7)) \<and>
   list_all py_isspace [32, 160] \<and> list_all py_isspace [10] \<and>
   uncased_space (\<lambda>pre c suf. [c]) \<and>
   fst (get_common_medications ! 7) = ascii ''cetirizin'' \<and>
   match_med (\<lambda>pre c suf. [c]) ([32, 160] @ ascii ''CeTiRiZin'' @ [10]) =
     Some (get_common_medications ! 7)"
proof -
  have h1: "get_common_medications ! 7 \<in> set get_common_medications"
    by (simp add: get_common_medications_def)
  have h2: "caseless_eq (ascii ''CeTiRiZin'') (fst (get_common_medications ! 7))"
    by (simp add: caseless_eq_def get_common_medications_def ascii_def ascii_lower_def)
  have h3: "list_all py_isspace [32, 160]" and h4: "list_all py_isspace [10]"
    by (simp_all add: py_isspace_def)
  have h5: "uncased_space (\<lambda>pre c suf. [c])"
    by (simp add: uncased_space_def)
  have n: "fst (get_common_medications ! 7) = ascii ''cetirizin''"
    by (simp add: get_common_medications_def)
  from canonical_name_any_case [OF h1 h2 h3 h4 h5] h1 h2 h3 h4 h5 n
  show ?thesis by blast
qed

text \<open>
  C4. For every brand name of the directory, a query equal to the brand up to the case of
  its letters finds the record of the entry that lists the brand: no earlier entry matches
  first.
\<close>

theorem brand_any_case:
  assumes "e \<in> set get_common_medications" and "b \<in> set (brands (snd e))"
    and "caseless_eq q b"
  shows "match_med U q = Some e"
proof -
  from brands_table [of U] assms(1,2)
  have t: "find_med U (map ascii_lower b) get_common_medications = Some e"
    "py_strip (map ascii_lower b) = map ascii_lower b"
    by (simp_all add: list_all_iff)
  from caseless_eq_lower [OF assms(3)]
  have q: "map ascii_lower q = map ascii_lower b" "\<forall>c \<in> set q. c < 128"
    by simp_all
  have "lower_from U [] q = map ascii_lower q"
    by (rule lower_from_plain) (simp add: q(2))
  then have "query_lower_of U q = map ascii_lower b"
    by (simp add: query_lower_of_def py_lower_def q(1) t(2))
  then show ?thesis by (simp add: match_med_def t(1))
qed

theorem brand_any_case_witness:
  "get_common_medications ! 4 \<in> set get_common_medications \<and>
   ascii ''Glucophage'' \<in> set (brands (snd (get_common_medications ! 4))) \<and>
   caseless_eq (ascii ''gLUCOphage'') (ascii ''Glucophage'') \<and>
   fst (get_common_medications ! 4) = ascii ''metformin'' \<and>
   match_med (\<lambda>pre c suf. [c]) (ascii ''gLUCOphage'') = Some (get_common_medications ! 4)"
proof -
  have h1: "get_common_medications ! 4 \<in> set get_common_medications"
    by (simp add: get_common_medications_def)
  have h2: "ascii ''Glucophage'' \<in> set (brands (snd (get_common_medications ! 4)))"
    by (simp add: get_common_medications_def)
  have h3: "caseless_eq (ascii ''gLUCOphage'') (ascii ''Glucophage'')"
    by (simp add: caseless_eq_def ascii_def ascii_lower_def)
  have n: "fst (get_common_medications ! 4) = ascii ''metformin''"
    by (simp add: get_common_medications_def)
  from brand_any_case [OF h1 h2 h3] h1 h2 h3 n
  show ?thesis by blast
qed

section \<open>The reference link decodes to the query\<close>

lemma three_byte_value:
  fixes c :: nat
  shows "(c div 4096 * 64 + c div 64 mod 64) * 64 + c mod 64 = c"
proof -
  have "c div 4096 = c div 64 div 64" by (simp add: div_mult2_eq [symmetric])
  then show ?thesis by simp
qed

lemma four_byte_value:
  fixes c :: nat
  shows "((c div 262144 * 64 + c div 4096 mod 64) * 64 + c div 64 mod 64) * 64 + c mod 64 = c"
proof -
  have a: "c div 4096 = c div 64 div 64" by (simp add: div_mult2_eq [symmetric])
  have b: "c div 262144 = c div 64 div 64 div 64" by (simp add: div_mult2_eq [symmetric])
  show ?thesis unfolding a b by simp
qed

lemma utf8_decode_two:
  assumes "d < 32" "m < 64" "128 \<le> c" "d * 64 + m = c"
  shows "utf8_decode ([192 + d, 128 + m] @ rest) = map_option ((#) c) (utf8_decode rest)"
  using assms by (simp add: continuation_def)


lemma mod64_byte: "x mod 64 < (128::nat)"
proof -
  have "x mod 64 < 64" by simp
  then show ?thesis by linarith
qed

lemma utf8_decode_three:
  assumes "d < 16" "e < 64" "m < 64" "2048 \<le> c" "\<not> (55296 \<le> c \<and> c \<le> 57343)"
    "(d * 64 + e) * 64 + m = c"
  shows "utf8_decode ([224 + d, 128 + e, 128 + m] @ rest) = map_option ((#) c) (utf8_decode rest)"
  using assms by (simp add: continuation_def)

lemma utf8_decode_four:
  assumes "d < 8" "f < 64" "e < 64" "m < 64" "65536 \<le> c" "c < 1114112"
    "((d * 64 + f) * 64 + e) * 64 + m = c"
  shows "utf8_decode ([240 + d, 128 + f, 128 + e, 128 + m] @ rest) =
         map_option ((#) c) (utf8_decode rest)"
  using assms by (simp add: continuation_def)

lemma utf8_cp_roundtrip:
  assumes "scalar_value c"
  shows "\<exists>bs. utf8_encode_cp c = Inr bs \<and> list_all (\<lambda>b. b < 256) bs \<and>
           (\<forall>rest. utf8_decode (bs @ rest) = map_option ((#) c) (utf8_decode rest))"
proof -
  consider "c < 128" | "128 \<le> c" "c < 2048"
    | "2048 \<le> c" "c < 65536" "\<not> (55296 \<le> c \<and> c \<le> 57343)"
    | "65536 \<le> c" "c < 1114112"
    using assms unfolding scalar_value_def by linarith
  note cases = this
  have m: "c mod 64 < 64" "c div 64 mod 64 < 64" "c div 4096 mod 64 < 64"
    by simp_all
  from cases show ?thesis
  proof cases
    case 1
    then show ?thesis by (simp add: utf8_encode_cp_def)
  next
    case 2
    have enc: "utf8_encode_cp c = Inr [192 + c div 64, 128 + c mod 64]"
      using 2 by (simp add: utf8_encode_cp_def)
    have d: "c div 64 < 32" using 2 by simp
    have "list_all (\<lambda>b. b < 256) [192 + c div 64, 128 + c mod 64]"
      using d by (simp add: mod64_byte)
    with enc utf8_decode_two [OF d m(1) 2(1)] show ?thesis by auto
  next
    case 3
    have enc: "utf8_encode_cp c = Inr [224 + c div 4096, 128 + c div 64 mod 64, 128 + c mod 64]"
      using 3 by (simp add: utf8_encode_cp_def)
    have d: "c div 4096 < 16" using 3 by simp
    have "list_all (\<lambda>b. b < 256) [224 + c div 4096, 128 + c div 64 mod 64, 128 + c mod 64]"
      using d by (simp add: mod64_byte)
    with enc utf8_decode_three [OF d m(2,1) 3(1,3) three_byte_value] show ?thesis by auto
  next
    case 4
    have enc: "utf8_encode_cp c =
        Inr [240 + c div 262144, 128 + c div 4096 mod 64, 128 + c div 64 mod 64, 128 + c mod 64]"
      using 4 by (simp add: utf8_encode_cp_def)
    have d: "c div 262144 < 8" using 4 by simp
    have "list_all (\<lambda>b. b < 256)
        [240 + c div 262144, 128 + c div 4096 mod 64, 128 + c div 64 mod 64, 128 + c mod 64]"
      using d by (simp add: mod64_byte)
    with enc utf8_decode_four [OF d m(3,2,1) 4 four_byte_value] show ?thesis by auto
  qed
qed

lemma percent_decode_plain: "c \<noteq> 37 \<Longrightarrow> percent_decode (c # cs) = c # percent_decode cs"
  by (cases "(c # cs)" rule: percent_decode.cases) simp_all

lemma hex_digit_ok: "n < 16 \<Longrightarrow> is_hex (hex_digit n) \<and> hex_value (hex_digit n) = n"
  by (auto simp: is_hex_def hex_value_def hex_digit_def)

lemma percent_decode_quoter:
  assumes "b < 256"
  shows "percent_decode (quoter b @ rest) = b # percent_decode rest"
proof (cases "always_safe b \<or> b = 47")
  case True
  then have "b \<noteq> 37" by (auto simp: always_safe_def)
  with True show ?thesis by (simp add: quoter_def percent_decode_plain)
next
  case False
  have d: "b div 16 < 16" "b mod 16 < 16" using assms by simp_all
  show ?thesis
    using False hex_digit_ok [OF d(1)] hex_digit_ok [OF d(2)]
    by (simp add: quoter_def)
qed

lemma percent_decode_quote_from_bytes:
  "list_all (\<lambda>b. b < 256) bs \<Longrightarrow> percent_decode (quote_from_bytes bs) = bs"
  by (induction bs) (simp_all add: quote_from_bytes_def percent_decode_quoter)

lemma utf8_roundtrip:
  "encodable s \<Longrightarrow>
   \<exists>bs. utf8_encode s = Inr bs \<and> list_all (\<lambda>b. b < 256) bs \<and>
        (\<forall>rest. utf8_decode (bs @ rest) = map_option ((@) s) (utf8_decode rest))"
proof (induction s)
  case Nil
  show ?case by (simp add: option.map_ident)
next
  case (Cons c cs)
  from Cons.prems have "scalar_value c" and "encodable cs"
    by (simp_all add: encodable_def)
  from utf8_cp_roundtrip [OF \<open>scalar_value c\<close>] obtain hs where
    hs: "utf8_encode_cp c = Inr hs" "list_all (\<lambda>b. b < 256) hs"
      "\<And>rest. utf8_decode (hs @ rest) = map_option ((#) c) (utf8_decode rest)"
    by blast
  from Cons.IH [OF \<open>encodable cs\<close>] obtain ts where
    ts: "utf8_encode cs = Inr ts" "list_all (\<lambda>b. b < 256) ts"
      "\<And>rest. utf8_decode (ts @ rest) = map_option ((@) cs) (utf8_decode rest)"
    by blast
  have "utf8_encode (c # cs) = Inr (hs @ ts)"
    by (simp add: hs(1) ts(1))
  moreover have "list_all (\<lambda>b. b < 256) (hs @ ts)"
    using hs(2) ts(2) by simp
  moreover have "utf8_decode ((hs @ ts) @ rest) = map_option ((@) (c # cs)) (utf8_decode rest)"
    for rest
    by (cases "utf8_decode rest") (simp_all add: hs(3) ts(3))
  ultimately show ?case by blast
qed

lemma quote_roundtrip:
  assumes "encodable s"
  shows "\<exists>enc. quote s = Inr enc \<and> utf8_decode (percent_decode enc) = Some s"
proof -
  from utf8_roundtrip [OF assms] obtain bs where
    bs: "utf8_encode s = Inr bs" "list_all (\<lambda>b. b < 256) bs"
      "\<And>rest. utf8_decode (bs @ rest) = map_option ((@) s) (utf8_decode rest)"
    by blast
  have "quote s = Inr (quote_from_bytes bs)"
    by (simp add: quote_def bs(1))
  moreover have "utf8_decode (percent_decode (quote_from_bytes bs)) = Some s"
    using bs(3) [of "[]"] by (simp add: percent_decode_quote_from_bytes [OF bs(2)])
  ultimately show ?thesis by blast
qed

lemma py_join_append:
  "xs \<noteq> [] \<Longrightarrow> ys \<noteq> [] \<Longrightarrow> py_join sep (xs @ ys) = py_join sep xs @ sep @ py_join sep ys"
proof (induction sep xs rule: py_join.induct)
  case (1 sep)
  then show ?case by simp
next
  case (2 sep x)
  then show ?case by (cases ys) simp_all
next
  case (3 sep x y zs)
  then show ?case by simp
qed


lemma search_fass_web_encodable:
  assumes "encodable q"
  shows "\<exists>enc. search_fass_web q =
            Inr \<lparr>query = q, search_url = ascii ''https://fass.se/search?query='' @ enc,
                 note_text = ascii ''Visit the URL above to see full results on FASS.se''\<rparr> \<and>
           utf8_decode (percent_decode enc) = Some q"
proof -
  from quote_roundtrip [OF assms] obtain enc where
    "quote q = Inr enc" "utf8_decode (percent_decode enc) = Some q" by blast
  then show ?thesis by (simp add: search_fass_web_def)
qed

text \<open>
  C6, as amended. For every query without a surrogate code point the link builder returns
  the fixed template \<^verbatim>\<open>https://fass.se/search?query=\<close> followed by the percent-encoding
  of the raw query, and percent-decoding that component gives back exactly the query; the
  query \<^verbatim>\<open>alvedon 500mg\<close> yields \<^verbatim>\<open>alvedon%20500mg\<close>, which decodes to it.
\<close>

theorem reference_url_roundtrip:
  "(encodable q \<longrightarrow>
      (\<exists>enc. search_fass_web q =
            Inr \<lparr>query = q, search_url = ascii ''https://fass.se/search?query='' @ enc,
                 note_text = ascii ''Visit the URL above to see full results on FASS.se''\<rparr> \<and>
           utf8_decode (percent_decode enc) = Some q)) \<and>
   search_fass_web (ascii ''alvedon 500mg'') =
     Inr \<lparr>query = ascii ''alvedon 500mg'',
          search_url = ascii ''https://fass.se/search?query='' @ ascii ''alvedon%20500mg'',
          note_text = ascii ''Visit the URL above to see full results on FASS.se''\<rparr> \<and>
   utf8_decode (percent_decode (ascii ''alvedon%20500mg'')) = Some (ascii ''alvedon 500mg'')"
proof (intro conjI impI)
  assume "encodable q"
  then show "\<exists>enc. search_fass_web q =
            Inr \<lparr>query = q, search_url = ascii ''https://fass.se/search?query='' @ enc,
                 note_text = ascii ''Visit the URL above to see full results on FASS.se''\<rparr> \<and>
           utf8_decode (percent_decode enc) = Some q"
    by (rule search_fass_web_encodable)
next
  have "quote (ascii ''alvedon 500mg'') = Inr (ascii ''alvedon%20500mg'')"
    by (simp add: quote_def quote_from_bytes_def quoter_def utf8_encode_cp_def always_safe_def
        hex_digit_def ascii_def)
  then show "search_fass_web (ascii ''alvedon 500mg'') =
     Inr \<lparr>query = ascii ''alvedon 500mg'',
          search_url = ascii ''https://fass.se/search?query='' @ ascii ''alvedon%20500mg'',
          note_text = ascii ''Visit the URL above to see full results on FASS.se''\<rparr>"
    by (simp add: search_fass_web_def)
next
  show "utf8_decode (percent_decode (ascii ''alvedon%20500mg'')) = Some (ascii ''alvedon 500mg'')"
    by (simp add: ascii_def is_hex_def hex_value_def)
qed

theorem reference_url_roundtrip_witness:
  "encodable [76, 228, 107, 32, 128279] \<and>
   (\<exists>enc. search_fass_web [76, 228, 107, 32, 128279] =
            Inr \<lparr>query = [76, 228, 107, 32, 128279],
                 search_url = ascii ''https://fass.se/search?query='' @ enc,
                 note_text = ascii ''Visit the URL above to see full results on FASS.se''\<rparr> \<and>
           utf8_decode (percent_decode enc) = Some [76, 228, 107, 32, 128279])"
proof -
  have h: "encodable [76, 228, 107, 32, 128279]"
    by (simp add: encodable_def scalar_value_def)
  from reference_url_roundtrip [of "[76, 228, 107, 32, 128279]"] h
  show ?thesis by blast
qed

text \<open>
  C6 as stated, for every query, fails: a query holding the lone surrogate \<open>U+DCFF\<close>
  (what \<^verbatim>\<open>sys.argv\<close> holds for the byte \<open>0xFF\<close>) makes
  \<^verbatim>\<open>urllib.parse.quote\<close> raise, so no URL is produced.
\<close>

theorem reference_url_surrogate_counterexample:
  "search_fass_web [56575] = Inl UnicodeEncodeError"
  by (simp add: search_fass_web_def quote_def utf8_encode_cp_def)

section \<open>The text that the lookup returns\<close>

lemma lookup_medication_lines:
  assumes "search_fass_web q = Inr w"
  shows "lookup_medication U q =
     Inr (py_join [10] ((ascii ''## Swedish Medication Lookup: '' @ q @ [10]) #
                        found_lines (match_med U q) @ fass_lines w))"
  using assms by (simp add: lookup_medication_def match_med_def query_lower_of_def)

lemma fass_lines_text:
  "py_join [10] (fass_lines w) =
      ascii ''### Full Information on FASS'' @ [10] @
      [128279, 32] @ search_url w @ [10] @
      [10] @
      ascii ''---'' @ [10] @
      ascii ''*This is informational only. Always consult healthcare professionals for medical advice.*'' @ [10] @
      ascii ''*Sources: FASS.se, L'' @ [228] @ ascii ''kemedelsverket*''"
  by (simp add: fass_lines_def)

lemma lookup_medication_text:
  assumes "search_fass_web q = Inr w"
  shows "lookup_medication U q =
     Inr (py_join [10] ((ascii ''## Swedish Medication Lookup: '' @ q @ [10]) #
                        found_lines (match_med U q)) @ [10] @ py_join [10] (fass_lines w))"
proof -
  have "fass_lines w \<noteq> []" by (simp add: fass_lines_def)
  then have "py_join [10] (((ascii ''## Swedish Medication Lookup: '' @ q @ [10]) #
                        found_lines (match_med U q)) @ fass_lines w) =
      py_join [10] ((ascii ''## Swedish Medication Lookup: '' @ q @ [10]) #
                        found_lines (match_med U q)) @ [10] @ py_join [10] (fass_lines w)"
    by (intro py_join_append) simp_all
  then show ?thesis
    by (simp only: lookup_medication_lines [OF assms] append_Cons)
qed

text \<open>
  C8, as amended. For every query without a surrogate code point, matched or not, the
  text returned ends with the \<^verbatim>\<open>Full Information\<close> subheader, the line with the
  reference URL, an empty line, a rule, the disclaimer and the sources line; when nothing
  matched, only the header line stands before them.
\<close>

theorem full_information_always:
  assumes "encodable q"
  shows "\<exists>enc.
     quote q = Inr enc \<and>
     lookup_medication U q =
       Inr (py_join [10] ((ascii ''## Swedish Medication Lookup: '' @ q @ [10]) #
                          found_lines (match_med U q)) @ [10] @
            ascii ''### Full Information on FASS'' @ [10] @
            [128279, 32] @ ascii ''https://fass.se/search?query='' @ enc @ [10] @
            [10] @
            ascii ''---'' @ [10] @
            ascii ''*This is informational only. Always consult healthcare professionals for medical advice.*'' @ [10] @
            ascii ''*Sources: FASS.se, L'' @ [228] @ ascii ''kemedelsverket*'') \<and>
     (match_med U q = None \<longrightarrow>
        py_join [10] ((ascii ''## Swedish Medication Lookup: '' @ q @ [10]) #
                      found_lines (match_med U q)) =
        ascii ''## Swedish Medication Lookup: '' @ q @ [10])"
proof -
  from quote_roundtrip [OF assms] obtain enc where enc: "quote q = Inr enc"
    by blast
  define w where "w = \<lparr>query = q, search_url = ascii ''https://fass.se/search?query='' @ enc,
      note_text = ascii ''Visit the URL above to see full results on FASS.se''\<rparr>"
  have w: "search_fass_web q = Inr w"
    by (simp add: search_fass_web_def enc w_def)
  have url: "search_url w = ascii ''https://fass.se/search?query='' @ enc"
    by (simp add: w_def)
  have out: "lookup_medication U q =
       Inr (py_join [10] ((ascii ''## Swedish Medication Lookup: '' @ q @ [10]) #
                          found_lines (match_med U q)) @ [10] @
            ascii ''### Full Information on FASS'' @ [10] @
            [128279, 32] @ ascii ''https://fass.se/search?query='' @ enc @ [10] @
            [10] @
            ascii ''---'' @ [10] @
            ascii ''*This is informational only. Always consult healthcare professionals for medical advice.*'' @ [10] @
            ascii ''*Sources: FASS.se, L'' @ [228] @ ascii ''kemedelsverket*'')"
    by (simp only: lookup_medication_text [OF w] fass_lines_text url append_assoc)
  have none: "match_med U q = None \<longrightarrow>
        py_join [10] ((ascii ''## Swedish Medication Lookup: '' @ q @ [10]) #
                      found_lines (match_med U q)) =
        ascii ''## Swedish Medication Lookup: '' @ q @ [10]"
    by (simp add: found_lines_def)
  show ?thesis
    by (intro exI conjI) (rule enc, rule out, rule none)
qed

theorem full_information_always_witness:
  "encodable (ascii ''aspirin'') \<and>
   match_med (\<lambda>pre c suf. [c]) (ascii ''aspirin'') = None \<and>
   lookup_medication (\<lambda>pre c suf. [c]) (ascii ''aspirin'') =
     Inr (ascii ''## Swedish Medication Lookup: aspirin'' @ [10] @ [10] @
          ascii ''### Full Information on FASS'' @ [10] @
          [128279, 32] @ ascii ''https://fass.se/search?query=aspirin'' @ [10] @
          [10] @
          ascii ''---'' @ [10] @
          ascii ''*This is informational only. Always consult healthcare professionals for medical advice.*'' @ [10] @
          ascii ''*Sources: FASS.se, L'' @ [228] @ ascii ''kemedelsverket*'')"
proof -
  have h: "encodable (ascii ''aspirin'')"
    by (simp add: encodable_def scalar_value_def ascii_def)
  have m: "match_med (\<lambda>pre c suf. [c]) (ascii ''aspirin'') = None"
    by (simp add: matcher_eval)
  have q: "quote (ascii ''aspirin'') = Inr (ascii ''aspirin'')"
    by (simp add: quote_def quote_from_bytes_def quoter_def utf8_encode_cp_def always_safe_def
        ascii_def)
  from full_information_always [OF h, of "\<lambda>pre c suf. [c]"] obtain enc where
    e: "quote (ascii ''aspirin'') = Inr enc"
    and t: "lookup_medication (\<lambda>pre c suf. [c]) (ascii ''aspirin'') =
       Inr (py_join [10] ((ascii ''## Swedish Medication Lookup: '' @ ascii ''aspirin'' @ [10]) #
                          found_lines (match_med (\<lambda>pre c suf. [c]) (ascii ''aspirin''))) @ [10] @
            ascii ''### Full Information on FASS'' @ [10] @
            [128279, 32] @ ascii ''https://fass.se/search?query='' @ enc @ [10] @
            [10] @
            ascii ''---'' @ [10] @
            ascii ''*This is informational only. Always consult healthcare professionals for medical advice.*'' @ [10] @
            ascii ''*Sources: FASS.se, L'' @ [228] @ ascii ''kemedelsverket*'')"
    by blast
  from e q have enc: "enc = ascii ''aspirin''" by simp
  have "lookup_medication (\<lambda>pre c suf. [c]) (ascii ''aspirin'') =
     Inr (ascii ''## Swedish Medication Lookup: aspirin'' @ [10] @ [10] @
          ascii ''### Full Information on FASS'' @ [10] @
          [128279, 32] @ ascii ''https://fass.se/search?query=aspirin'' @ [10] @
          [10] @
          ascii ''---'' @ [10] @
          ascii ''*This is informational only. Always consult healthcare professionals for medical advice.*'' @ [10] @
          ascii ''*Sources: FASS.se, L'' @ [228] @ ascii ''kemedelsverket*'')"
    unfolding t enc m by (simp add: found_lines_def ascii_def)
  with h m show ?thesis by (intro conjI)
qed

text \<open>
  C8 as stated, for every query, fails: on the lone surrogate \<open>U+DCFF\<close> the call of
  \<^verbatim>\<open>search_fass_web\<close> raises and \<^verbatim>\<open>lookup_medication\<close> returns no text.
\<close>

theorem full_information_surrogate_counterexample:
  "lookup_medication (\<lambda>pre c suf. [c]) [56575] = Inl UnicodeEncodeError"
  by (simp add: lookup_medication_def search_fass_web_def quote_def utf8_encode_cp_def)

section \<open>Exit status\<close>




section \<open>The OTC line\<close>

text \<open>
  C9. When a record matches, the text holds, after the header, the subheader, the use
  line and the dosage line, the line \<^verbatim>\<open>**OTC:** \<close> followed by
  \<^verbatim>\<open>Yes (receptfritt)\<close> when the record's \<^verbatim>\<open>otc\<close> is the Boolean true, by
  \<^verbatim>\<open>No (receptbelagt)\<close> when it is the Boolean false, and by the string itself when
  it is a string.
\<close>

theorem otc_rendering:
  assumes "match_med U q = Some (med_name, info)" and "encodable q"
  shows "\<exists>w r.
     search_fass_web q = Inr w \<and>
     lookup_medication U q =
       Inr (py_join [10]
             ([ascii ''## Swedish Medication Lookup: '' @ q @ [10],
               ascii ''### '' @ py_title med_name @ ascii '' ('' @
                 py_join (ascii '', '') (brands info) @ ascii '')'' @ [10],
               ascii ''**Use:** '' @ use info,
               ascii ''**Dosage:** '' @ dose info,
               ascii ''**OTC:** '' @ r,
               ascii ''**Warnings:** '' @ warnings info,
               []] @ fass_lines w)) \<and>
     (otc info = OtcBool True \<longrightarrow> r = ascii ''Yes (receptfritt)'') \<and>
     (otc info = OtcBool False \<longrightarrow> r = ascii ''No (receptbelagt)'') \<and>
     (\<forall>s. otc info = OtcStr s \<longrightarrow> r = s)"
proof -
  from search_fass_web_encodable [OF assms(2)] obtain w where
    w: "search_fass_web q = Inr w" by blast
  have out: "lookup_medication U q =
       Inr (py_join [10]
             ([ascii ''## Swedish Medication Lookup: '' @ q @ [10],
               ascii ''### '' @ py_title med_name @ ascii '' ('' @
                 py_join (ascii '', '') (brands info) @ ascii '')'' @ [10],
               ascii ''**Use:** '' @ use info,
               ascii ''**Dosage:** '' @ dose info,
               ascii ''**OTC:** '' @ otc_text (otc info),
               ascii ''**Warnings:** '' @ warnings info,
               []] @ fass_lines w))"
    unfolding lookup_medication_lines [OF w] assms(1) found_lines_def
    by (simp only: option.case prod.case append_Cons append_Nil)
  have r1: "otc info = OtcBool True \<longrightarrow> otc_text (otc info) = ascii ''Yes (receptfritt)''"
    by (simp add: otc_text_def)
  have r2: "otc info = OtcBool False \<longrightarrow> otc_text (otc info) = ascii ''No (receptbelagt)''"
    by (simp add: otc_text_def)
  have r3: "\<forall>s. otc info = OtcStr s \<longrightarrow> otc_text (otc info) = s"
    by (simp add: otc_text_def)
  show ?thesis
    by (intro exI conjI) (rule w, rule out, rule r1, rule r2, rule r3)
qed

theorem otc_rendering_witness:
  "match_med (\<lambda>pre c suf. [c]) (ascii ''omeprazol'') =
     Some (ascii ''omeprazol'', snd (get_common_medications ! 2)) \<and>
   encodable (ascii ''omeprazol'') \<and>
   otc (snd (get_common_medications ! 2)) = OtcStr (ascii ''Low dose OTC, higher doses Rx'') \<and>
   (\<exists>w. lookup_medication (\<lambda>pre c suf. [c]) (ascii ''omeprazol'') =
       Inr (py_join [10]
             ([ascii ''## Swedish Medication Lookup: '' @ ascii ''omeprazol'' @ [10],
               ascii ''### '' @ py_title (ascii ''omeprazol'') @ ascii '' ('' @
                 py_join (ascii '', '') (brands (snd (get_common_medications ! 2))) @
                 ascii '')'' @ [10],
               ascii ''**Use:** '' @ use (snd (get_common_medications ! 2)),
               ascii ''**Dosage:** '' @ dose (snd (get_common_medications ! 2)),
               ascii ''**OTC:** '' @ ascii ''Low dose OTC, higher doses Rx'',
               ascii ''**Warnings:** '' @ warnings (snd (get_common_medications ! 2)),
               []] @ fass_lines w)))"
proof -
  have h1: "match_med (\<lambda>pre c suf. [c]) (ascii ''omeprazol'') =
     Some (ascii ''omeprazol'', snd (get_common_medications ! 2))"
    by (simp add: matcher_eval)
  have h2: "encodable (ascii ''omeprazol'')"
    by (simp add: encodable_def scalar_value_def ascii_def)
  have o: "otc (snd (get_common_medications ! 2)) = OtcStr (ascii ''Low dose OTC, higher doses Rx'')"
    by (simp add: get_common_medications_def)
  from otc_rendering [OF h1 h2] obtain w r where
    t: "lookup_medication (\<lambda>pre c suf. [c]) (ascii ''omeprazol'') =
       Inr (py_join [10]
             ([ascii ''## Swedish Medication Lookup: '' @ ascii ''omeprazol'' @ [10],
               ascii ''### '' @ py_title (ascii ''omeprazol'') @ ascii '' ('' @
                 py_join (ascii '', '') (brands (snd (get_common_medications ! 2))) @
                 ascii '')'' @ [10],
               ascii ''**Use:** '' @ use (snd (get_common_medications ! 2)),
               ascii ''**Dosage:** '' @ dose (snd (get_common_medications ! 2)),
               ascii ''**OTC:** '' @ r,
               ascii ''**Warnings:** '' @ warnings (snd (get_common_medications ! 2)),
               []] @ fass_lines w))"
    and r: "\<forall>s. otc (snd (get_common_medications ! 2)) = OtcStr s \<longrightarrow> r = s"
    by blast
  from r o have "r = ascii ''Low dose OTC, higher doses Rx''" by blast
  with t have "\<exists>w. lookup_medication (\<lambda>pre c suf. [c]) (ascii ''omeprazol'') =
       Inr (py_join [10]
             ([ascii ''## Swedish Medication Lookup: '' @ ascii ''omeprazol'' @ [10],
               ascii ''### '' @ py_title (ascii ''omeprazol'') @ ascii '' ('' @
                 py_join (ascii '', '') (brands (snd (get_common_medications ! 2))) @
                 ascii '')'' @ [10],
               ascii ''**Use:** '' @ use (snd (get_common_medications ! 2)),
               ascii ''**Dosage:** '' @ dose (snd (get_common_medications ! 2)),
               ascii ''**OTC:** '' @ ascii ''Low dose OTC, higher doses Rx'',
               ascii ''**Warnings:** '' @ warnings (snd (get_common_medications ! 2)),
               []] @ fass_lines w))"
    by (intro exI [of _ w]) (simp only:)
  with h1 h2 o show ?thesis by (intro conjI)
qed

text \<open>
  The whole text for the query \<^verbatim>\<open>Losec\<close>, which finds the omeprazol record through
  its first brand name.
\<close>

lemma lookup_losec_text:
  "lookup_medication U (ascii ''Losec'') =
     Inr (ascii ''## Swedish Medication Lookup: Losec'' @ [10] @ [10] @
          ascii ''### Omeprazol (Losec, Omeprazol)'' @ [10] @ [10] @
          ascii ''**Use:** Acid reflux, stomach ulcers, GERD'' @ [10] @
          ascii ''**Dosage:** Adult: 20mg once daily'' @ [10] @
          ascii ''**OTC:** Low dose OTC, higher doses Rx'' @ [10] @
          ascii ''**Warnings:** Long-term use may affect B12/magnesium'' @ [10] @ [10] @
          ascii ''### Full Information on FASS'' @ [10] @
          [128279, 32] @ ascii ''https://fass.se/search?query=Losec'' @ [10] @ [10] @
          ascii ''---'' @ [10] @
          ascii ''*This is informational only. Always consult healthcare professionals for medical advice.*'' @ [10] @
          ascii ''*Sources: FASS.se, L'' @ [228] @ ascii ''kemedelsverket*'')"
proof -
  have m: "find_med U (py_strip (py_lower U (ascii ''Losec''))) get_common_medications =
      Some (get_common_medications ! 2)"
    by (simp add: matcher_eval)
  have q: "search_fass_web (ascii ''Losec'') =
      Inr \<lparr>query = ascii ''Losec'', search_url = ascii ''https://fass.se/search?query=Losec'',
           note_text = ascii ''Visit the URL above to see full results on FASS.se''\<rparr>"
    by (simp add: search_fass_web_def quote_def quote_from_bytes_def quoter_def
        utf8_encode_cp_def always_safe_def ascii_def)
  show ?thesis
    unfolding lookup_medication_def Let_def m q
    by (simp add: found_lines_def fass_lines_def otc_text_def py_title_def ascii_cased_def
        ascii_upper_def ascii_lower_def get_common_medications_def ascii_def)
qed

end
